theory Spec2Isabelle
  imports Complex_Main
begin

section \<open>The OBD-II link of \<open>src/hooks/useBluetoothOBD.ts\<close>\<close>

text \<open>
  The hook \<open>useBluetoothOBD\<close> talks to an ELM327 adapter over one Bluetooth
  characteristic.  Its functions are embedded here one by one, under their own names.
  JavaScript strings are lists of characters; the response texts come out of
  \<open>Buffer.toString('ascii')\<close>, so every character of a response is a 7-bit one.
  JavaScript numbers are rationals plus \<open>NaN\<close>.  Every number the decoders build is a
  small integer divided by 4, 5 or 255.  A quarter is exact in a double; where the host
  rounds a fifth or a 255th to the nearest double (the coolant temperature
  \<open>-36.400000000000006\<close> for the byte \<open>02\<close>), the model keeps the exact value
  \<open>-182 / 5\<close>, and \<open>Math.round\<close> gives the same integer for both.  The draws of
  \<open>Math.random()\<close> are taken as rationals.  The waits between the steps are left out.
\<close>

subsection \<open>Strings and numbers of the host language\<close>

datatype number = NaN | Num rat

text \<open>\<open>Math.round\<close>: the nearest integer, a half rounding up.\<close>

fun Math_round :: "number \<Rightarrow> number" where
  "Math_round NaN = NaN"
| "Math_round (Num x) = Num (of_int \<lfloor>x + 1 / 2\<rfloor>)"

text \<open>Truthiness of a number: \<open>0\<close> and \<open>NaN\<close> are falsy.\<close>

fun truthy :: "number \<Rightarrow> bool" where
  "truthy NaN = False"
| "truthy (Num x) = (x \<noteq> 0)"

text \<open>The comparisons \<open>n > 0\<close> and \<open>n >= 0\<close>; both are false on \<open>NaN\<close>.\<close>

fun gt0 :: "number \<Rightarrow> bool" where
  "gt0 NaN = False"
| "gt0 (Num x) = (0 < x)"

fun ge0 :: "number \<Rightarrow> bool" where
  "ge0 NaN = False"
| "ge0 (Num x) = (0 \<le> x)"

text \<open>The class \<open>\s\<close> of a regular expression, on 8-bit characters.\<close>

definition isSpace :: "char \<Rightarrow> bool" where
  "isSpace c = (c \<in> set [CHR 0x09, CHR 0x0A, CHR 0x0B, CHR 0x0C, CHR 0x0D, CHR 0x20, CHR 0xA0])"

text \<open>
  \<open>toUpperCase\<close> on one character: the letters a to z.  (Above 127 the host also maps
  accented letters; no such character reaches the decoders, and none of them becomes a
  character that the patterns below look for.)
\<close>

definition upperChar :: "char \<Rightarrow> char" where
  "upperChar c =
     (case map_of (zip ''abcdefghijklmnopqrstuvwxyz'' ''ABCDEFGHIJKLMNOPQRSTUVWXYZ'') c of
        Some u \<Rightarrow> u
      | None \<Rightarrow> c)"

definition toUpperCase :: "string \<Rightarrow> string" where
  "toUpperCase s = map upperChar s"

text \<open>\<open>response.replace(/\s/g, '').toUpperCase()\<close>\<close>

definition cleanResponse :: "string \<Rightarrow> string" where
  "cleanResponse response = toUpperCase (filter (\<lambda>c. \<not> isSpace c) response)"

text \<open>The class \<open>[0-9A-F]\<close>.\<close>

definition isHex :: "char \<Rightarrow> bool" where
  "isHex c = (c \<in> set ''0123456789ABCDEF'')"

text \<open>\<open>s.substr(start, len)\<close>\<close>

definition substr :: "string \<Rightarrow> nat \<Rightarrow> nat \<Rightarrow> string" where
  "substr s start len = take len (drop start s)"

text \<open>
  \<open>parseInt(s, 16)\<close>: the value of the longest prefix of hexadecimal digits, of either
  case; \<open>None\<close> stands for \<open>NaN\<close>, the result when there is no such digit.  (The host
  also skips leading blanks, a sign and a \<open>0x\<close> prefix: the callers pass pieces of a
  run of \<open>[0-9A-F]\<close> only.)
\<close>

definition hexValue :: "char \<Rightarrow> nat option" where
  "hexValue c = map_of (zip ''0123456789ABCDEFabcdef''
     [0, 1, 2, 3, 4, 5, 6, 7, 8, 9, 10, 11, 12, 13, 14, 15, 10, 11, 12, 13, 14, 15]) c"

fun hexPrefix :: "string \<Rightarrow> nat list" where
  "hexPrefix [] = []"
| "hexPrefix (c # cs) = (case hexValue c of None \<Rightarrow> [] | Some v \<Rightarrow> v # hexPrefix cs)"

definition parseInt16 :: "string \<Rightarrow> nat option" where
  "parseInt16 s = (case hexPrefix s of
     [] \<Rightarrow> None
   | d # ds \<Rightarrow> Some (foldl (\<lambda>acc v. acc * 16 + v) 0 (d # ds)))"

text \<open>A number as a template string prints it: in decimal, \<open>NaN\<close> as such.\<close>

definition decDigit :: "nat \<Rightarrow> char" where
  "decDigit d = ''0123456789'' ! d"

fun showDec :: "nat \<Rightarrow> string" where
  "showDec n = (if n < 10 then [decDigit n] else showDec (n div 10) @ [decDigit (n mod 10)])"

declare showDec.simps [simp del]

text \<open>\<open>n.toString(16)\<close>, in lower case as the host prints it.\<close>

definition hexDigit :: "nat \<Rightarrow> char" where
  "hexDigit d = ''0123456789abcdef'' ! d"

fun toString16 :: "nat \<Rightarrow> string" where
  "toString16 n = (if n < 16 then [hexDigit n] else toString16 (n div 16) @ [hexDigit (n mod 16)])"

declare toString16.simps [simp del]

text \<open>\<open>s.padStart(len, '0')\<close>\<close>

definition padStart :: "string \<Rightarrow> nat \<Rightarrow> string" where
  "padStart s len = replicate (len - length s) CHR ''0'' @ s"

subsection \<open>The PID decoder\<close>

text \<open>
  \<open>cleanResponse.match(/41[0-9A-F]{2}([0-9A-F]+)/)\<close>: the leftmost place where the
  pattern matches, and there the capture group, which is greedy and takes the whole run
  of hexadecimal digits.  \<open>matchAt\<close> tries one place, \<open>dataMatch\<close> the places from
  left to right.
\<close>

fun matchAt :: "string \<Rightarrow> string option" where
  "matchAt (a # b # p # q # d # rest) =
     (if a = CHR ''4'' \<and> b = CHR ''1'' \<and> isHex p \<and> isHex q \<and> isHex d
      then Some (takeWhile isHex (d # rest)) else None)"
| "matchAt _ = None"

fun dataMatch :: "string \<Rightarrow> string option" where
  "dataMatch [] = None"
| "dataMatch (c # cs) =
     (case matchAt (c # cs) of Some d \<Rightarrow> Some d | None \<Rightarrow> dataMatch cs)"

text \<open>The arithmetic of each case, on the bytes that \<open>parseInt\<close> gave.\<close>

definition ofByte :: "nat option \<Rightarrow> number" where
  "ofByte v = (case v of None \<Rightarrow> NaN | Some n \<Rightarrow> Num (of_nat n))"

fun rpmOf :: "number \<Rightarrow> number \<Rightarrow> number" where
  "rpmOf (Num a) (Num b) = Num (((a * 256) + b) / 4)"
| "rpmOf _ _ = NaN"

fun fahrenheitOf :: "number \<Rightarrow> number" where
  "fahrenheitOf (Num a) = Num (((a - 40) * 9 / 5) + 32)"
| "fahrenheitOf NaN = NaN"

fun pressureOf :: "number \<Rightarrow> number" where
  "pressureOf (Num a) = Num (a * 3)"
| "pressureOf NaN = NaN"

fun loadOf :: "number \<Rightarrow> number" where
  "loadOf (Num a) = Math_round (Num ((a * 100) / 255))"
| "loadOf NaN = NaN"

text \<open>
  \<open>parseOBDResponse(pid, response)\<close>; \<open>None\<close> is the \<open>null\<close> it returns.  Nothing in
  its body throws on a string, so the \<open>catch\<close> is never entered.
\<close>

definition parseOBDResponse :: "string \<Rightarrow> string \<Rightarrow> number option" where
  "parseOBDResponse pid response =
     (case dataMatch (cleanResponse response) of
        None \<Rightarrow> None
      | Some dataBytes \<Rightarrow>
          if pid = ''0C'' then
            (if length dataBytes \<ge> 4
             then Some (rpmOf (ofByte (parseInt16 (substr dataBytes 0 2)))
                              (ofByte (parseInt16 (substr dataBytes 2 2))))
             else None)
          else if pid = ''0D'' then
            (if length dataBytes \<ge> 2
             then Some (ofByte (parseInt16 (substr dataBytes 0 2))) else None)
          else if pid = ''05'' then
            (if length dataBytes \<ge> 2
             then Some (fahrenheitOf (ofByte (parseInt16 (substr dataBytes 0 2)))) else None)
          else if pid = ''0A'' then
            (if length dataBytes \<ge> 2
             then Some (pressureOf (ofByte (parseInt16 (substr dataBytes 0 2)))) else None)
          else if pid = ''04'' then
            (if length dataBytes \<ge> 2
             then Some (loadOf (ofByte (parseInt16 (substr dataBytes 0 2)))) else None)
          else None)"

subsection \<open>The trouble-code codec\<close>

datatype severity = low | medium | high

record DTCCode =
  code :: string
  description :: string
  severity :: severity

text \<open>
  \<open>convertHexToDTC(hex)\<close>.  The two bytes are read with \<open>parseInt\<close>; the letter is
  looked up in \<open>['P', 'C', 'B', 'U']\<close>, where an index that is \<open>NaN\<close> or out of range
  gives \<open>undefined\<close>; the template string prints \<open>secondChar\<close> and \<open>thirdChar\<close> as
  numbers.  Nothing here throws, so the result is never \<open>null\<close>.
\<close>

definition firstCharOf :: "nat option \<Rightarrow> string" where
  "firstCharOf firstByte = (case firstByte of
     None \<Rightarrow> ''undefined''
   | Some f \<Rightarrow> (if f div 64 < 4 then [''PCBU'' ! (f div 64)] else ''undefined''))"

definition showNumber :: "nat option \<Rightarrow> string" where
  "showNumber v = (case v of None \<Rightarrow> ''NaN'' | Some n \<Rightarrow> showDec n)"

definition fourthFifthCharOf :: "nat option \<Rightarrow> string" where
  "fourthFifthCharOf secondByte = (case secondByte of
     None \<Rightarrow> toUpperCase (padStart ''NaN'' 2)
   | Some s \<Rightarrow> toUpperCase (padStart (toString16 s) 2))"

definition convertHexToDTC :: "string \<Rightarrow> string option" where
  "convertHexToDTC hex =
     (let firstByte = parseInt16 (substr hex 0 2);
          secondByte = parseInt16 (substr hex 2 2);
          firstChar = firstCharOf firstByte;
          secondChar = map_option (\<lambda>f. (f mod 64) div 16) firstByte;
          thirdChar = map_option (\<lambda>f. f mod 16) firstByte;
          fourthFifthChar = fourthFifthCharOf secondByte
      in Some (firstChar @ showNumber secondChar @ showNumber thirdChar @ fourthFifthChar))"

text \<open>\<open>getDTCDescription(code)\<close>: the table, else the generic label.\<close>

definition descriptions :: "(string \<times> string) list" where
  "descriptions =
    [(''P0420'', ''Catalyst System Efficiency Below Threshold''),
     (''P0171'', ''System Too Lean (Bank 1)''),
     (''P0172'', ''System Too Rich (Bank 1)''),
     (''P0300'', ''Random/Multiple Cylinder Misfire Detected''),
     (''P0301'', ''Cylinder 1 Misfire Detected''),
     (''P0302'', ''Cylinder 2 Misfire Detected''),
     (''P0303'', ''Cylinder 3 Misfire Detected''),
     (''P0304'', ''Cylinder 4 Misfire Detected''),
     (''P0440'', ''Evaporative Emission Control System Malfunction''),
     (''P0442'', ''Evaporative Emission Control System Leak Detected (Small Leak)''),
     (''P0455'', ''Evaporative Emission Control System Leak Detected (Large Leak)''),
     (''P0506'', ''Idle Control System RPM Lower Than Expected''),
     (''P0507'', ''Idle Control System RPM Higher Than Expected'')]"

definition getDTCDescription :: "string \<Rightarrow> string" where
  "getDTCDescription c = (case map_of descriptions c of
     Some d \<Rightarrow> d
   | None \<Rightarrow> ''Diagnostic trouble code: '' @ c)"

definition getDTCSeverity :: "string \<Rightarrow> severity" where
  "getDTCSeverity c =
     (if c \<in> set [''P0171'', ''P0172'', ''P0300'', ''P0301'', ''P0302'', ''P0303'', ''P0304'']
      then high
      else if c \<in> set [''P0420'', ''P0440'', ''P0442'', ''P0455''] then medium
      else low)"

text \<open>
  The loop \<open>while ((match = dtcPattern.exec(cleanResponse)) !== null)\<close> with the global
  pattern \<open>/43([0-9A-F]{4})/g\<close>: each round finds the leftmost match at or after the end
  of the last one.  \<open>dtcMatches\<close> lists the capture groups in that order.
\<close>

fun dtcMatchAt :: "string \<Rightarrow> string option" where
  "dtcMatchAt (a # b # p # q # r # s # rest) =
     (if a = CHR ''4'' \<and> b = CHR ''3'' \<and> isHex p \<and> isHex q \<and> isHex r \<and> isHex s
      then Some [p, q, r, s] else None)"
| "dtcMatchAt _ = None"

fun dtcMatches :: "string \<Rightarrow> string list" where
  "dtcMatches [] = []"
| "dtcMatches (c # cs) =
     (case dtcMatchAt (c # cs) of
        Some dtcHex \<Rightarrow> dtcHex # dtcMatches (drop 5 cs)
      | None \<Rightarrow> dtcMatches cs)"

text \<open>The body of the loop: the code is pushed unless it is empty or \<open>P0000\<close>.\<close>

definition pushDTC :: "DTCCode list \<Rightarrow> string \<Rightarrow> DTCCode list" where
  "pushDTC codes dtcHex = (case convertHexToDTC dtcHex of
     None \<Rightarrow> codes
   | Some dtcCode \<Rightarrow>
       if dtcCode \<noteq> [] \<and> dtcCode \<noteq> ''P0000''
       then codes @ [\<lparr>code = dtcCode, description = getDTCDescription dtcCode,
                       severity = getDTCSeverity dtcCode\<rparr>]
       else codes)"

definition parseDTCCodes :: "string \<Rightarrow> DTCCode list" where
  "parseDTCCodes response = foldl pushDTC [] (dtcMatches (cleanResponse response))"

subsection \<open>The adapter, the hook's state and what it reports\<close>

text \<open>
  The adapter is the other side of the characteristic.  What it does is fixed by the
  commands written to it so far: \<open>writeRejects\<close> tells whether the write that completes
  this history is rejected (with the printed error), \<open>readResolves\<close> what a read
  resolves with after it (a rejection, or \<open>response.value\<close> as the bytes that the
  base64 text stands for, \<open>None\<close> when it is \<open>null\<close>).
\<close>

record adapter =
  writeRejects :: "string list \<Rightarrow> string option"
  readResolves :: "string list \<Rightarrow> string + string option"

text \<open>What is thrown: \<open>showError\<close> is how a template string prints it.\<close>

datatype error = JsError string | TypeError string | BleError string


record 'a obd =
  rpm :: 'a
  speed :: 'a
  coolantTemp :: 'a
  fuelPressure :: 'a
  voltage :: 'a
  engineLoad :: 'a

text \<open>\<open>OBDData\<close> has every field; in \<open>Partial<OBDData>\<close> a key may be missing.\<close>

type_synonym OBDData = "number obd"
type_synonym PartialOBDData = "number option obd"

text \<open>
  The calls that leave the hook, in the order they happen: the callbacks of its caller
  and the calls of \<open>writeWithResponse\<close> on the characteristic, accepted or not.
\<close>

datatype event =
    Wrote string
  | ConnectionChange bool
  | ErrorReported string
  | DataReceived OBDData
  | DTCReceived "DTCCode list"

record characteristic =
  uuid :: string
  isWritableWithResponse :: bool
  isWritableWithoutResponse :: bool

record hook =
  bleManagerRef :: bool
  connectedDeviceRef :: "string option"
  characteristicRef :: "characteristic option"
  dataPollingRef :: bool
  isScanning :: bool
  isConnected :: bool
  isConnecting :: bool
  trace :: "event list"

fun writesOf :: "event list \<Rightarrow> string list" where
  "writesOf [] = []"
| "writesOf (Wrote d # es) = d # writesOf es"
| "writesOf (_ # es) = writesOf es"

subsection \<open>The command channel\<close>

text \<open>
  \<open>sendOBDCommand(command)\<close> runs in two stretches, with the wait for the write and
  the fixed pause between them: \<open>sendOBDCommand_write\<close> is the check of the two
  references and the write of the command with its carriage return,
  \<open>sendOBDCommand_read\<close> the read and the decoding of the value as ASCII (which
  clears the top bit of every byte).  The text is returned as it was read.
\<close>

definition sendOBDCommand_write :: "adapter \<Rightarrow> string \<Rightarrow> hook \<Rightarrow> (error + unit) \<times> hook" where
  "sendOBDCommand_write a command h =
     (if characteristicRef h = None \<or> connectedDeviceRef h = None
      then (Inl (JsError ''No active OBD connection''), h)
      else
        let commandWithCR = command @ [CHR 0x0D];
            h1 = h\<lparr>trace := trace h @ [Wrote commandWithCR]\<rparr>
        in case writeRejects a (writesOf (trace h1)) of
             Some e \<Rightarrow> (Inl (BleError e), h1)
           | None \<Rightarrow> (Inr (), h1))"

definition sendOBDCommand_read :: "adapter \<Rightarrow> hook \<Rightarrow> (error + string) \<times> hook" where
  "sendOBDCommand_read a h =
     (if characteristicRef h = None
      then (Inl (TypeError ''Cannot read properties of null''), h)
      else case readResolves a (writesOf (trace h)) of
             Inl e \<Rightarrow> (Inl (BleError e), h)
           | Inr v \<Rightarrow>
               (Inr (map String.ascii_of (case v of None \<Rightarrow> [] | Some bytes \<Rightarrow> bytes)), h))"

definition sendOBDCommand :: "adapter \<Rightarrow> string \<Rightarrow> hook \<Rightarrow> (error + string) \<times> hook" where
  "sendOBDCommand a command h =
     (case sendOBDCommand_write a command h of
        (Inl e, h1) \<Rightarrow> (Inl e, h1)
      | (Inr _, h1) \<Rightarrow> sendOBDCommand_read a h1)"

subsection \<open>Connecting and initialising\<close>










subsection \<open>Polling\<close>

text \<open>
  One of the four blocks of \<open>readOBDData\<close>: the command is sent and the response
  decoded; a throw is caught and leaves no value.
\<close>

definition readPID :: "adapter \<Rightarrow> string \<Rightarrow> string \<Rightarrow> hook \<Rightarrow> number option \<times> hook" where
  "readPID a command pid h =
     (case sendOBDCommand a command h of
        (Inl e, h1) \<Rightarrow> (None, h1)
      | (Inr response, h1) \<Rightarrow> (parseOBDResponse pid response, h1))"

definition noData :: PartialOBDData where
  "noData = \<lparr>rpm = None, speed = None, coolantTemp = None, fuelPressure = None,
             voltage = None, engineLoad = None\<rparr>"

text \<open>\<open>!data.fuelPressure\<close>: the key is missing, or its value is falsy.\<close>

definition falsy :: "number option \<Rightarrow> bool" where
  "falsy v = (case v of None \<Rightarrow> True | Some n \<Rightarrow> \<not> truthy n)"

text \<open>
  \<open>readOBDData()\<close>; \<open>random1\<close> and \<open>random2\<close> are what the two calls of
  \<open>Math.random()\<close> return.
\<close>

definition readOBDData :: "adapter \<Rightarrow> rat \<Rightarrow> rat \<Rightarrow> hook \<Rightarrow> PartialOBDData \<times> hook" where
  "readOBDData a random1 random2 h =
     (let (rpmV, h1) = readPID a ''010C'' ''0C'' h;
          data1 = (case rpmV of
                     Some n \<Rightarrow> if gt0 n then noData\<lparr>rpm := Some (Math_round n)\<rparr> else noData
                   | None \<Rightarrow> noData);
          (speedV, h2) = readPID a ''010D'' ''0D'' h1;
          data2 = (case speedV of
                     Some n \<Rightarrow> if ge0 n then data1\<lparr>speed := Some (Math_round n)\<rparr> else data1
                   | None \<Rightarrow> data1);
          (tempV, h3) = readPID a ''0105'' ''05'' h2;
          data3 = (case tempV of
                     Some n \<Rightarrow> data2\<lparr>coolantTemp := Some (Math_round n)\<rparr>
                   | None \<Rightarrow> data2);
          (loadV, h4) = readPID a ''0104'' ''04'' h3;
          data4 = (case loadV of
                     Some n \<Rightarrow> if ge0 n then data3\<lparr>engineLoad := Some (Math_round n)\<rparr> else data3
                   | None \<Rightarrow> data3);
          data5 = data4\<lparr>voltage := Some (Num (12 + random1 * 2))\<rparr>;
          data6 = (if falsy (fuelPressure data5)
                   then data5\<lparr>fuelPressure := Some (Num (35 + of_int \<lfloor>random2 * 10\<rfloor>))\<rparr>
                   else data5)
      in (data6, h4))"

text \<open>\<open>Object.keys(data).length\<close>\<close>

definition keyCount :: "PartialOBDData \<Rightarrow> nat" where
  "keyCount d = length (filter (\<lambda>v. v \<noteq> None)
     [rpm d, speed d, coolantTemp d, fuelPressure d, voltage d, engineLoad d])"

text \<open>\<open>v || dflt\<close>\<close>

definition orElse :: "number option \<Rightarrow> rat \<Rightarrow> number" where
  "orElse v dflt = (case v of None \<Rightarrow> Num dflt | Some n \<Rightarrow> if truthy n then n else Num dflt)"

definition completeData :: "PartialOBDData \<Rightarrow> OBDData" where
  "completeData d =
     \<lparr>rpm = orElse (rpm d) 0, speed = orElse (speed d) 0,
      coolantTemp = orElse (coolantTemp d) 0, fuelPressure = orElse (fuelPressure d) 0,
      voltage = orElse (voltage d) (124 / 10), engineLoad = orElse (engineLoad d) 0\<rparr>"

text \<open>
  The callback of the interval.  \<open>isConnectedSeen\<close> is the value of \<open>isConnected\<close> that
  the callback reads.
\<close>

definition pollTick :: "adapter \<Rightarrow> bool \<Rightarrow> rat \<Rightarrow> rat \<Rightarrow> hook \<Rightarrow> hook" where
  "pollTick a isConnectedSeen random1 random2 h =
     (if isConnectedSeen \<and> characteristicRef h \<noteq> None
      then
        let (data, h1) = readOBDData a random1 random2 h
        in if keyCount data > 0
           then h1\<lparr>trace := trace h1 @ [DataReceived (completeData data)]\<rparr>
           else h1
      else h)"

subsection \<open>Reading the stored codes\<close>

text \<open>
  \<open>readDTCCodes()\<close>: a failed command is not reported as an error, the caller is
  handed no codes.
\<close>

definition readDTCCodes :: "adapter \<Rightarrow> hook \<Rightarrow> hook" where
  "readDTCCodes a h =
     (if characteristicRef h = None
      then h\<lparr>trace := trace h @ [ErrorReported ''No active OBD connection'']\<rparr>
      else case sendOBDCommand a ''03'' h of
             (Inl e, h1) \<Rightarrow> h1\<lparr>trace := trace h1 @ [DTCReceived []]\<rparr>
           | (Inr response, h1) \<Rightarrow>
               h1\<lparr>trace := trace h1 @ [DTCReceived (parseDTCCodes response)]\<rparr>)"

subsection \<open>Notions used to state the properties\<close>

text \<open>A byte as two upper-case hexadecimal digits, the way the codec prints one.\<close>

definition hexByte :: "nat \<Rightarrow> string" where
  "hexByte n = toUpperCase (padStart (toString16 n) 2)"

definition upperHexDigit :: "nat \<Rightarrow> char" where
  "upperHexDigit d = upperChar (hexDigit d)"

text \<open>
  The marker that the decoder accepts, at place \<open>i\<close> of a cleaned response: \<open>41\<close>, two
  hexadecimal digits and one more, the first of the data.
\<close>

definition markerAt :: "string \<Rightarrow> nat \<Rightarrow> bool" where
  "markerAt s i =
     (i + 5 \<le> length s \<and> s ! i = CHR ''4'' \<and> s ! (i + 1) = CHR ''1''
      \<and> isHex (s ! (i + 2)) \<and> isHex (s ! (i + 3)) \<and> isHex (s ! (i + 4)))"

text \<open>The number of data digits that the case of a PID asks for; no case, no number.\<close>

definition dataDigits :: "string \<Rightarrow> nat option" where
  "dataDigits pid =
     (if pid = ''0C'' then Some 4
      else if pid \<in> set [''0D'', ''05'', ''0A'', ''04''] then Some 2
      else None)"

text \<open>Whether a text occurs in another.\<close>

fun occursIn :: "string \<Rightarrow> string \<Rightarrow> bool" where
  "occursIn pat [] = (pat = [])"
| "occursIn pat (c # cs) = (take (length pat) (c # cs) = pat \<or> occursIn pat cs)"

text \<open>
  What C7 asks of a response of \<open>43\<close> and the groups \<open>groups\<close>: the code of every group,
  the empty slots left out.
\<close>

definition codesOfGroups :: "string list \<Rightarrow> string list" where
  "codesOfGroups groups =
     filter (\<lambda>dtcCode. dtcCode \<noteq> ''P0000'')
       (map (\<lambda>dtcHex. case convertHexToDTC dtcHex of None \<Rightarrow> [] | Some dtcCode \<Rightarrow> dtcCode) groups)"

text \<open>
  The marker that the codec looks for, at place \<open>i\<close> of a cleaned response: \<open>43\<close> and
  four hexadecimal digits.
\<close>

definition dtcMarkerAt :: "string \<Rightarrow> nat \<Rightarrow> bool" where
  "dtcMarkerAt s i =
     (i + 6 \<le> length s \<and> s ! i = CHR ''4'' \<and> s ! (i + 1) = CHR ''3''
      \<and> isHex (s ! (i + 2)) \<and> isHex (s ! (i + 3)) \<and> isHex (s ! (i + 4))
      \<and> isHex (s ! (i + 5)))"

subsection \<open>Adapters and states to run the hook on\<close>

text \<open>
  An adapter that accepts every write and answers a read with its reply to the command
  written last.
\<close>

definition replying :: "(string \<Rightarrow> string) \<Rightarrow> adapter" where
  "replying reply =
     \<lparr>writeRejects = (\<lambda>ws. None),
      readResolves = (\<lambda>ws. case ws of [] \<Rightarrow> Inr None | _ \<Rightarrow> Inr (Some (reply (last ws))))\<rparr>"

definition elmCharacteristic :: characteristic where
  "elmCharacteristic =
     \<lparr>uuid = ''fff1'', isWritableWithResponse = True, isWritableWithoutResponse = False\<rparr>"

definition readyHook :: hook where
  "readyHook = \<lparr>bleManagerRef = True, connectedDeviceRef = Some ''AA:BB'',
     characteristicRef = Some elmCharacteristic, dataPollingRef = True, isScanning = False,
     isConnected = True, isConnecting = False, trace = []\<rparr>"

text \<open>
  What an adapter answers to each command: with the engine off, at rest, stopped, and
  when only the RPM is answered.
\<close>

definition engineOff :: "string \<Rightarrow> string" where
  "engineOff command = ''NO DATA''"

definition idleEngine :: "string \<Rightarrow> string" where
  "idleEngine command =
     (if command = ''010C'' @ [CHR 0x0D] then ''41 0C 00 00'' else ''NO DATA'')"



text \<open>An adapter with echo on: the command comes back before the answer and the prompt.\<close>

definition echoing :: "string \<Rightarrow> string" where
  "echoing command = command @ ''41 0C 1A F8'' @ [CHR 0x0D, CHR 0x0D] @ ''>''"




section \<open>Properties\<close>

subsection \<open>Hexadecimal digits\<close>

lemma upperHexDigit_nth:
  assumes "d < 16"
  shows "upperHexDigit d = ''0123456789ABCDEF'' ! d"
proof -
  have table: "map upperHexDigit [0..<16] = ''0123456789ABCDEF''"
    by code_simp
  have "map upperHexDigit [0..<16] ! d = upperHexDigit ([0..<16] ! d)"
    using assms by (intro nth_map) simp
  also have "[0..<16] ! d = d"
    using assms by (metis add_0 nth_upt)
  finally show ?thesis
    by (simp only: table)
qed

lemma upperHexDigit_isHex: "d < 16 \<Longrightarrow> isHex (upperHexDigit d)"
  unfolding isHex_def by (simp only: upperHexDigit_nth) (rule nth_mem, simp)

lemma upperHexDigit_value:
  assumes "d < 16"
  shows "hexValue (upperHexDigit d) = Some d"
proof -
  have table: "map (\<lambda>d. hexValue (upperHexDigit d)) [0..<16] = map Some [0..<16]"
    by code_simp
  have "map (\<lambda>d. hexValue (upperHexDigit d)) [0..<16] ! d = hexValue (upperHexDigit ([0..<16] ! d))"
    using assms by (intro nth_map) simp
  moreover have "map Some [0..<16] ! d = Some ([0..<16] ! d)"
    using assms by (intro nth_map) simp
  moreover have "[0..<16] ! d = d"
    using assms by (metis add_0 nth_upt)
  ultimately show ?thesis
    by (simp only: table)
qed

lemma hexByte_digits:
  assumes "n < 256"
  shows "hexByte n = [upperHexDigit (n div 16), upperHexDigit (n mod 16)]"
proof (cases "n < 16")
  case True
  then show ?thesis
    by (simp add: hexByte_def toString16.simps [of n] padStart_def toUpperCase_def
        upperHexDigit_def hexDigit_def upperChar_def)
next
  case False
  with assms have "n div 16 < 16" by simp
  with False show ?thesis
    by (simp add: hexByte_def toString16.simps [of n] toString16.simps [of "n div 16"]
        padStart_def toUpperCase_def upperHexDigit_def)
qed

lemma parseInt16_two:
  assumes "d1 < 16" "d2 < 16"
  shows "parseInt16 [upperHexDigit d1, upperHexDigit d2] = Some (d1 * 16 + d2)"
  using assms by (simp add: parseInt16_def upperHexDigit_value)

lemma parseInt16_hexByte: "n < 256 \<Longrightarrow> parseInt16 (hexByte n) = Some n"
  by (simp add: hexByte_digits parseInt16_two)

subsection \<open>What a polling cycle emits\<close>

lemma readPID_send:
  "readPID a command pid h =
     (case fst (sendOBDCommand a command h) of
        Inl e \<Rightarrow> None
      | Inr response \<Rightarrow> parseOBDResponse pid response,
      snd (sendOBDCommand a command h))"
  by (simp add: readPID_def split: prod.splits sum.splits)

lemma readOBDData_eq:
  "readOBDData a random1 random2 h =
     (let h1 = snd (readPID a ''010C'' ''0C'' h);
          h2 = snd (readPID a ''010D'' ''0D'' h1);
          h3 = snd (readPID a ''0105'' ''05'' h2);
          h4 = snd (readPID a ''0104'' ''04'' h3)
      in (\<lparr>rpm = (case fst (readPID a ''010C'' ''0C'' h) of
                    None \<Rightarrow> None
                  | Some n \<Rightarrow> if gt0 n then Some (Math_round n) else None),
           speed = (case fst (readPID a ''010D'' ''0D'' h1) of
                      None \<Rightarrow> None
                    | Some n \<Rightarrow> if ge0 n then Some (Math_round n) else None),
           coolantTemp = map_option Math_round (fst (readPID a ''0105'' ''05'' h2)),
           fuelPressure = Some (Num (35 + of_int \<lfloor>random2 * 10\<rfloor>)),
           voltage = Some (Num (12 + random1 * 2)),
           engineLoad = (case fst (readPID a ''0104'' ''04'' h3) of
                           None \<Rightarrow> None
                         | Some n \<Rightarrow> if ge0 n then Some (Math_round n) else None)\<rparr>, h4))"
  by (simp add: readOBDData_def Let_def case_prod_beta noData_def falsy_def
      split: option.splits)

lemma readOBDData_rpm:
  "rpm (fst (readOBDData a random1 random2 h)) =
     (case fst (readPID a ''010C'' ''0C'' h) of
        None \<Rightarrow> None
      | Some n \<Rightarrow> if gt0 n then Some (Math_round n) else None)"
  by (simp add: readOBDData_eq Let_def)

lemma gt0_iff: "gt0 n \<longleftrightarrow> (\<exists>x. n = Num x \<and> 0 < x)"
  by (cases n) simp_all

text \<open>
  C10.  The result of \<open>readOBDData\<close> has an \<open>rpm\<close> key exactly when the command
  \<open>010C\<close> was answered and the answer decoded to a number above zero.  An answer that
  decodes to exactly 0 leaves the key out, as a failed read does.
\<close>

theorem rpm_kept_only_when_positive:
  "(rpm (fst (readOBDData a random1 random2 h)) \<noteq> None
      \<longleftrightarrow> (\<exists>response x. fst (sendOBDCommand a ''010C'' h) = Inr response
             \<and> parseOBDResponse ''0C'' response = Some (Num x) \<and> 0 < x))
   \<and> (fst (sendOBDCommand a ''010C'' h) = Inr response
        \<and> parseOBDResponse ''0C'' response = Some (Num 0)
      \<longrightarrow> rpm (fst (readOBDData a random1 random2 h)) = None)
   \<and> (fst (sendOBDCommand a ''010C'' h) = Inl e
      \<longrightarrow> rpm (fst (readOBDData a random1 random2 h)) = None)"
  by (auto simp: readOBDData_rpm readPID_send gt0_iff split: sum.splits option.splits)

theorem rpm_kept_only_when_positive_witness:
  "fst (sendOBDCommand (replying idleEngine) ''010C'' readyHook) = Inr ''41 0C 00 00''
   \<and> parseOBDResponse ''0C'' ''41 0C 00 00'' = Some (Num 0)
   \<and> rpm (fst (readOBDData (replying idleEngine) 0 0 readyHook)) = None"
proof -
  have s: "fst (sendOBDCommand (replying idleEngine) ''010C'' readyHook) = Inr ''41 0C 00 00''"
    by (simp add: sendOBDCommand_def sendOBDCommand_write_def sendOBDCommand_read_def
        replying_def idleEngine_def readyHook_def Let_def)
  have p: "parseOBDResponse ''0C'' ''41 0C 00 00'' = Some (Num 0)"
    by code_simp
  show ?thesis
    using rpm_kept_only_when_positive [of "replying idleEngine" 0 0 readyHook "''41 0C 00 00''"] s p
    by simp
qed




text \<open>
  C1.  A cycle in which none of the four tracked PIDs decodes: the adapter answers
  \<open>NO DATA\<close> to each command.  The callback still calls \<open>onDataReceived\<close>, because
  the simulated voltage and fuel pressure are keys of \<open>data\<close> on every cycle.
\<close>

theorem cycle_without_decoded_pid_emits:
  "parseOBDResponse ''0C'' (engineOff (''010C'' @ [CHR 0x0D])) = None
   \<and> parseOBDResponse ''0D'' (engineOff (''010D'' @ [CHR 0x0D])) = None
   \<and> parseOBDResponse ''05'' (engineOff (''0105'' @ [CHR 0x0D])) = None
   \<and> parseOBDResponse ''04'' (engineOff (''0104'' @ [CHR 0x0D])) = None
   \<and> trace (pollTick (replying engineOff) True 0 0 readyHook) =
       [Wrote (''010C'' @ [CHR 0x0D]), Wrote (''010D'' @ [CHR 0x0D]),
        Wrote (''0105'' @ [CHR 0x0D]), Wrote (''0104'' @ [CHR 0x0D]),
        DataReceived \<lparr>rpm = Num 0, speed = Num 0, coolantTemp = Num 0,
          fuelPressure = Num 35, voltage = Num 12, engineLoad = Num 0\<rparr>]"
  by code_simp









subsection \<open>Sending a command and connecting\<close>

lemma writesOf_append: "writesOf (es @ fs) = writesOf es @ writesOf fs"
  by (induction es rule: writesOf.induct) simp_all

text \<open>
  C8, as stated, fails.  With the echo on, the text returned for \<open>010C\<close> still starts
  with the echoed command and ends in the prompt \<open>>\<close>.
\<close>

theorem send_keeps_echo_and_prompt_counterexample:
  "fst (sendOBDCommand (replying echoing) ''010C'' readyHook) =
     Inr (''010C'' @ [CHR 0x0D] @ ''41 0C 1A F8'' @ [CHR 0x0D, CHR 0x0D] @ ''>'')"
  by code_simp

text \<open>
  C8, amended.  When the write is accepted and the read resolves with a value, the text
  returned is that value decoded as ASCII, character for character: nothing is taken
  out of it.
\<close>

theorem send_returns_text_as_read:
  assumes "characteristicRef h \<noteq> None" and "connectedDeviceRef h \<noteq> None"
    and "writeRejects a (writesOf (trace h) @ [command @ [CHR 0x0D]]) = None"
    and "readResolves a (writesOf (trace h) @ [command @ [CHR 0x0D]]) = Inr (Some bytes)"
  shows "fst (sendOBDCommand a command h) = Inr (map String.ascii_of bytes)"
  using assms
  by (simp add: sendOBDCommand_def sendOBDCommand_write_def sendOBDCommand_read_def
      Let_def writesOf_append)

theorem send_returns_text_as_read_witness:
  "characteristicRef readyHook \<noteq> None \<and> connectedDeviceRef readyHook \<noteq> None
   \<and> writeRejects (replying echoing) (writesOf (trace readyHook) @ [''010C'' @ [CHR 0x0D]]) = None
   \<and> readResolves (replying echoing) (writesOf (trace readyHook) @ [''010C'' @ [CHR 0x0D]])
       = Inr (Some (echoing (''010C'' @ [CHR 0x0D])))
   \<and> fst (sendOBDCommand (replying echoing) ''010C'' readyHook)
       = Inr (map String.ascii_of (echoing (''010C'' @ [CHR 0x0D])))"
proof -
  have 1: "characteristicRef readyHook \<noteq> None" and 2: "connectedDeviceRef readyHook \<noteq> None"
    by (simp_all add: readyHook_def)
  have 3: "writeRejects (replying echoing) (writesOf (trace readyHook) @ [''010C'' @ [CHR 0x0D]]) = None"
    by (simp add: replying_def)
  have 4: "readResolves (replying echoing) (writesOf (trace readyHook) @ [''010C'' @ [CHR 0x0D]])
       = Inr (Some (echoing (''010C'' @ [CHR 0x0D])))"
    by (simp add: replying_def readyHook_def)
  show ?thesis
    using send_returns_text_as_read [OF 1 2 3 4] 1 2 3 4 by simp
qed

text \<open>
  C5, as stated, fails.  The call for \<open>010C\<close> has written its command and waits for
  its answer; the call for \<open>010D\<close> made now is not rejected: its command is written too.
\<close>

theorem overlapping_send_counterexample:
  "fst (sendOBDCommand_write (replying engineOff) ''010C'' readyHook) = Inr ()
   \<and> fst (sendOBDCommand_write (replying engineOff) ''010D''
         (snd (sendOBDCommand_write (replying engineOff) ''010C'' readyHook))) = Inr ()
   \<and> trace (snd (sendOBDCommand_write (replying engineOff) ''010D''
         (snd (sendOBDCommand_write (replying engineOff) ''010C'' readyHook))))
       = [Wrote (''010C'' @ [CHR 0x0D]), Wrote (''010D'' @ [CHR 0x0D])]"
  by code_simp

text \<open>
  C5, amended.  A call made while another one waits for its answer is neither rejected
  for that nor queued: its command is written at once, and only the adapter rejecting
  the write makes it fail.  The call that was waiting then reads what the adapter holds
  after both writes.
\<close>

theorem overlapping_send_is_written:
  assumes "sendOBDCommand_write a command1 h = (Inr (), h1)"
    and "h2 = h1\<lparr>trace := trace h1 @ [Wrote (command2 @ [CHR 0x0D])]\<rparr>"
    and "history = writesOf (trace h) @ [command1 @ [CHR 0x0D], command2 @ [CHR 0x0D]]"
  shows "sendOBDCommand_write a command2 h1 =
           (case writeRejects a history of
              Some e \<Rightarrow> (Inl (BleError e), h2)
            | None \<Rightarrow> (Inr (), h2))
       \<and> sendOBDCommand_read a h2 =
           (case readResolves a history of
              Inl e \<Rightarrow> (Inl (BleError e), h2)
            | Inr v \<Rightarrow> (Inr (map String.ascii_of (case v of None \<Rightarrow> [] | Some bytes \<Rightarrow> bytes)), h2))"
proof -
  from assms(1) have refs: "characteristicRef h \<noteq> None" "connectedDeviceRef h \<noteq> None"
    and h1: "h1 = h\<lparr>trace := trace h @ [Wrote (command1 @ [CHR 0x0D])]\<rparr>"
    by (auto simp: sendOBDCommand_write_def Let_def split: if_splits option.splits)
  show ?thesis
    unfolding assms(2) assms(3) h1 using refs
    by (simp add: sendOBDCommand_write_def sendOBDCommand_read_def Let_def writesOf_append
        split: option.splits sum.splits)
qed

theorem overlapping_send_is_written_witness:
  "sendOBDCommand_write (replying engineOff) ''010C'' readyHook
     = (Inr (), readyHook\<lparr>trace := [Wrote (''010C'' @ [CHR 0x0D])]\<rparr>)
   \<and> sendOBDCommand_write (replying engineOff) ''010D''
       (readyHook\<lparr>trace := [Wrote (''010C'' @ [CHR 0x0D])]\<rparr>)
     = (Inr (), readyHook\<lparr>trace := [Wrote (''010C'' @ [CHR 0x0D]), Wrote (''010D'' @ [CHR 0x0D])]\<rparr>)"
proof -
  have 1: "sendOBDCommand_write (replying engineOff) ''010C'' readyHook
     = (Inr (), readyHook\<lparr>trace := [Wrote (''010C'' @ [CHR 0x0D])]\<rparr>)"
    by (simp add: sendOBDCommand_write_def replying_def readyHook_def Let_def)
  show ?thesis
    using overlapping_send_is_written [OF 1 refl refl, of "''010D''"] 1
    by (simp add: replying_def readyHook_def)
qed







subsection \<open>The marker of the PID decoder\<close>

lemma matchAt_iff:
  "matchAt s = Some d \<longleftrightarrow> markerAt s 0 \<and> d = takeWhile isHex (drop 4 s)"
  by (cases s rule: matchAt.cases) (auto simp: markerAt_def)

lemma matchAt_None_iff: "matchAt s = None \<longleftrightarrow> \<not> markerAt s 0"
  using matchAt_iff [of s] by (cases "matchAt s") auto

lemma markerAt_Cons_Suc: "markerAt (c # cs) (Suc i) = markerAt cs i"
  by (simp add: markerAt_def add.commute)

lemma drop_Suc_plus: "drop (Suc k + n) (c # cs) = drop (k + n) cs"
  by simp

lemma dataMatch_Some_iff:
  "dataMatch s = Some d \<longleftrightarrow>
     (\<exists>i. markerAt s i \<and> (\<forall>j<i. \<not> markerAt s j) \<and> d = takeWhile isHex (drop (i + 4) s))"
proof (induction s)
  case Nil
  then show ?case by (simp add: markerAt_def)
next
  case (Cons c cs)
  show ?case
  proof (cases "matchAt (c # cs)")
    case (Some d0)
    then have m0: "markerAt (c # cs) 0" and d0: "d0 = takeWhile isHex (drop 4 (c # cs))"
      by (simp_all add: matchAt_iff)
    have "dataMatch (c # cs) = Some d0"
      using Some by simp
    moreover have "(\<exists>i. markerAt (c # cs) i \<and> (\<forall>j<i. \<not> markerAt (c # cs) j)
        \<and> d = takeWhile isHex (drop (i + 4) (c # cs))) \<longleftrightarrow> d = d0"
    proof
      assume "\<exists>i. markerAt (c # cs) i \<and> (\<forall>j<i. \<not> markerAt (c # cs) j)
        \<and> d = takeWhile isHex (drop (i + 4) (c # cs))"
      then obtain i where i: "\<forall>j<i. \<not> markerAt (c # cs) j"
        and d: "d = takeWhile isHex (drop (i + 4) (c # cs))" by blast
      from i m0 have "i = 0" by (cases i) auto
      with d d0 show "d = d0" by simp
    next
      assume "d = d0"
      with m0 d0 have "markerAt (c # cs) 0 \<and> (\<forall>j<0. \<not> markerAt (c # cs) j)
        \<and> d = takeWhile isHex (drop (0 + 4) (c # cs))" by simp
      then show "\<exists>i. markerAt (c # cs) i \<and> (\<forall>j<i. \<not> markerAt (c # cs) j)
        \<and> d = takeWhile isHex (drop (i + 4) (c # cs))" by blast
    qed
    ultimately show ?thesis by auto
  next
    case None
    then have n0: "\<not> markerAt (c # cs) 0"
      by (simp add: matchAt_None_iff)
    have step: "dataMatch (c # cs) = dataMatch cs"
      using None by simp
    have "(\<exists>i. markerAt (c # cs) i \<and> (\<forall>j<i. \<not> markerAt (c # cs) j)
        \<and> d = takeWhile isHex (drop (i + 4) (c # cs)))
      \<longleftrightarrow> (\<exists>i. markerAt cs i \<and> (\<forall>j<i. \<not> markerAt cs j)
        \<and> d = takeWhile isHex (drop (i + 4) cs))"
    proof
      assume "\<exists>i. markerAt (c # cs) i \<and> (\<forall>j<i. \<not> markerAt (c # cs) j)
        \<and> d = takeWhile isHex (drop (i + 4) (c # cs))"
      then obtain i where m: "markerAt (c # cs) i"
        and l: "\<forall>j<i. \<not> markerAt (c # cs) j"
        and d: "d = takeWhile isHex (drop (i + 4) (c # cs))" by blast
      from m n0 obtain k where k: "i = Suc k" by (cases i) auto
      have "markerAt cs k" using m k by (simp add: markerAt_Cons_Suc)
      moreover have "\<forall>j<k. \<not> markerAt cs j"
      proof (intro allI impI)
        fix j assume "j < k"
        then have "Suc j < i" using k by simp
        with l have "\<not> markerAt (c # cs) (Suc j)" by blast
        then show "\<not> markerAt cs j" by (simp add: markerAt_Cons_Suc)
      qed
      moreover have "d = takeWhile isHex (drop (k + 4) cs)"
        using d unfolding k by (simp only: drop_Suc_plus)
      ultimately show "\<exists>i. markerAt cs i \<and> (\<forall>j<i. \<not> markerAt cs j)
        \<and> d = takeWhile isHex (drop (i + 4) cs)" by blast
    next
      assume "\<exists>i. markerAt cs i \<and> (\<forall>j<i. \<not> markerAt cs j)
        \<and> d = takeWhile isHex (drop (i + 4) cs)"
      then obtain k where m: "markerAt cs k"
        and l: "\<forall>j<k. \<not> markerAt cs j"
        and d: "d = takeWhile isHex (drop (k + 4) cs)" by blast
      have "markerAt (c # cs) (Suc k)" using m by (simp add: markerAt_Cons_Suc)
      moreover have "\<forall>j<Suc k. \<not> markerAt (c # cs) j"
      proof (intro allI impI)
        fix j assume j: "j < Suc k"
        show "\<not> markerAt (c # cs) j"
        proof (cases j)
          case 0
          with n0 show ?thesis by simp
        next
          case (Suc j')
          with j l show ?thesis by (simp add: markerAt_Cons_Suc)
        qed
      qed
      moreover have "d = takeWhile isHex (drop (Suc k + 4) (c # cs))"
        using d by (simp only: drop_Suc_plus)
      ultimately show "\<exists>i. markerAt (c # cs) i \<and> (\<forall>j<i. \<not> markerAt (c # cs) j)
        \<and> d = takeWhile isHex (drop (i + 4) (c # cs))" by blast
    qed
    with step Cons.IH show ?thesis by simp
  qed
qed

lemma isHex_hexValue: "isHex c \<Longrightarrow> hexValue c \<noteq> None"
  by (auto simp: isHex_def hexValue_def)

lemma parseInt16_hex_run:
  assumes "\<forall>c\<in>set d. isHex c" and "start < length d"
  shows "parseInt16 (substr d start 2) \<noteq> None"
proof -
  from assms(2) obtain c cs where c: "drop start d = c # cs"
    by (cases "drop start d") auto
  then have "c \<in> set d"
    by (metis in_set_dropD list.set_intros(1))
  with assms(1) have "hexValue c \<noteq> None"
    by (simp add: isHex_hexValue)
  then show ?thesis
    by (auto simp: parseInt16_def substr_def c split: list.splits)
qed

lemma parseOBDResponse_Some_iff:
  "parseOBDResponse pid response \<noteq> None \<longleftrightarrow>
     (\<exists>d n. dataMatch (cleanResponse response) = Some d \<and> dataDigits pid = Some n \<and> n \<le> length d)"
  by (auto simp: parseOBDResponse_def dataDigits_def split: option.splits)


lemma parseOBDResponse_not_NaN: "parseOBDResponse pid response \<noteq> Some NaN"
proof (cases "dataMatch (cleanResponse response)")
  case None
  then show ?thesis by (simp add: parseOBDResponse_def)
next
  case (Some d)
  then obtain i where "d = takeWhile isHex (drop (i + 4) (cleanResponse response))"
    using dataMatch_Some_iff by blast
  then have hex: "\<forall>c\<in>set d. isHex c"
    by (auto dest: set_takeWhileD)
  have a': "ofByte (parseInt16 (substr d 0 2)) \<noteq> NaN" if "2 \<le> length d"
  proof -
    from that have "0 < length d" by linarith
    from parseInt16_hex_run [OF hex this] show ?thesis
      by (cases "parseInt16 (substr d 0 2)") (simp_all add: ofByte_def)
  qed
  have b': "ofByte (parseInt16 (substr d 2 2)) \<noteq> NaN" if "4 \<le> length d"
  proof -
    from that have "2 < length d" by linarith
    from parseInt16_hex_run [OF hex this] show ?thesis
      by (cases "parseInt16 (substr d 2 2)") (simp_all add: ofByte_def)
  qed
  have rpm: "rpmOf x y \<noteq> NaN" if "x \<noteq> NaN" "y \<noteq> NaN" for x y
    using that by (cases x; cases y) simp_all
  have other: "fahrenheitOf x \<noteq> NaN" "pressureOf x \<noteq> NaN" "loadOf x \<noteq> NaN" if "x \<noteq> NaN" for x
    using that by (cases x; simp)+
  show ?thesis
    using Some a' b' rpm other by (auto simp: parseOBDResponse_def)
qed

text \<open>
  C4, as stated, fails.  The response \<open>41 0D 1A F8\<close> answers the PID \<open>0D\<close>: the marker
  \<open>41 0C\<close> does not occur in it, and the decoder asked for \<open>0C\<close> returns a number.
\<close>

theorem wrong_pid_echo_counterexample:
  "\<not> occursIn (''41'' @ ''0C'') (cleanResponse ''41 0D 1A F8'')
   \<and> parseOBDResponse ''0C'' ''41 0D 1A F8'' = Some (Num 1726)"
  by code_simp

text \<open>
  C4, amended.  The decoder returns a number if and only if the PID is one of its five
  cases and the cleaned response contains \<open>41\<close>, two hexadecimal digits (any two: they
  are not compared with the PID) and one more, with at least the digits that the case
  asks for in the run of hexadecimal digits after the leftmost such place.  In every
  other case it returns \<open>null\<close>; it is total, and what it returns is never \<open>NaN\<close>.
\<close>

theorem decoder_accepts_any_pid_echo:
  "(parseOBDResponse pid response \<noteq> None \<longleftrightarrow>
      (\<exists>i n. dataDigits pid = Some n
         \<and> markerAt (cleanResponse response) i
         \<and> (\<forall>j<i. \<not> markerAt (cleanResponse response) j)
         \<and> n \<le> length (takeWhile isHex (drop (i + 4) (cleanResponse response)))))
   \<and> parseOBDResponse pid response \<noteq> Some NaN"
proof -
  have "(\<exists>d n. dataMatch (cleanResponse response) = Some d \<and> dataDigits pid = Some n \<and> n \<le> length d)
     \<longleftrightarrow> (\<exists>i n. dataDigits pid = Some n
         \<and> markerAt (cleanResponse response) i
         \<and> (\<forall>j<i. \<not> markerAt (cleanResponse response) j)
         \<and> n \<le> length (takeWhile isHex (drop (i + 4) (cleanResponse response))))"
    unfolding dataMatch_Some_iff by blast
  then show ?thesis
    using parseOBDResponse_Some_iff [of pid response] parseOBDResponse_not_NaN [of pid response]
    by simp
qed

theorem decoder_accepts_any_pid_echo_witness:
  "parseOBDResponse ''0C'' ''41 0D 1A F8'' \<noteq> None
   \<and> (\<exists>i n. dataDigits ''0C'' = Some n
         \<and> markerAt (cleanResponse ''41 0D 1A F8'') i
         \<and> (\<forall>j<i. \<not> markerAt (cleanResponse ''41 0D 1A F8'') j)
         \<and> n \<le> length (takeWhile isHex (drop (i + 4) (cleanResponse ''41 0D 1A F8''))))"
proof -
  have "parseOBDResponse ''0C'' ''41 0D 1A F8'' \<noteq> None"
    by code_simp
  then show ?thesis
    using decoder_accepts_any_pid_echo [of "''0C''" "''41 0D 1A F8''"] by blast
qed

lemma markerAt_after_prefix:
  assumes "isHex p" "isHex q" "isHex d"
  shows "markerAt (pre @ CHR ''4'' # CHR ''1'' # p # q # d # rest) (length pre)"
  using assms by (simp add: markerAt_def nth_append)

text \<open>
  C9.  Take a response whose cleaned text holds the marker \<open>41 0C\<close> and after it the two
  data bytes \<open>A\<close> and \<open>B\<close>, with no earlier place that the decoder takes for a marker
  (an echoed command before it and a prompt after it do no harm).  The decoder returns
  \<open>((A * 256) + B) / 4\<close>; the bytes \<open>1A F8\<close> give 1726.
\<close>

theorem rpm_formula:
  assumes "A < 256" and "B < 256"
    and "cleanResponse response = pre @ ''410C'' @ hexByte A @ hexByte B @ rest"
    and "\<forall>j<length pre. \<not> markerAt (cleanResponse response) j"
  shows "parseOBDResponse ''0C'' response = Some (Num (((of_nat A * 256) + of_nat B) / 4))"
proof -
  let ?a1 = "upperHexDigit (A div 16)" and ?a2 = "upperHexDigit (A mod 16)"
  let ?b1 = "upperHexDigit (B div 16)" and ?b2 = "upperHexDigit (B mod 16)"
  have hex: "isHex ?a1" "isHex ?a2" "isHex ?b1" "isHex ?b2"
    using assms(1,2) by (simp_all add: upperHexDigit_isHex)
  have clean: "cleanResponse response
      = pre @ CHR ''4'' # CHR ''1'' # CHR ''0'' # CHR ''C'' # ?a1 # ?a2 # ?b1 # ?b2 # rest"
    using assms(1,2,3) by (simp add: hexByte_digits)
  have "isHex CHR ''0''" "isHex CHR ''C''"
    by (simp_all add: isHex_def)
  then have here: "markerAt (cleanResponse response) (length pre)"
    unfolding clean using hex(1) by (rule markerAt_after_prefix)
  have "drop (length pre + 4) (cleanResponse response) = ?a1 # ?a2 # ?b1 # ?b2 # rest"
    unfolding clean by simp
  then have run: "?a1 # ?a2 # ?b1 # ?b2 # takeWhile isHex rest
      = takeWhile isHex (drop (length pre + 4) (cleanResponse response))"
    using hex by simp
  have "\<exists>i. markerAt (cleanResponse response) i
      \<and> (\<forall>j<i. \<not> markerAt (cleanResponse response) j)
      \<and> ?a1 # ?a2 # ?b1 # ?b2 # takeWhile isHex rest
          = takeWhile isHex (drop (i + 4) (cleanResponse response))"
    using here assms(4) run by (intro exI [of _ "length pre"] conjI)
  then have m: "dataMatch (cleanResponse response)
      = Some (?a1 # ?a2 # ?b1 # ?b2 # takeWhile isHex rest)"
    by (simp only: dataMatch_Some_iff)
  have a: "parseInt16 [?a1, ?a2] = Some A"
    using parseInt16_hexByte [OF assms(1)] assms(1) by (simp add: hexByte_digits)
  have b: "parseInt16 [?b1, ?b2] = Some B"
    using parseInt16_hexByte [OF assms(2)] assms(2) by (simp add: hexByte_digits)
  show ?thesis
    by (simp add: parseOBDResponse_def m substr_def a b ofByte_def)
qed

theorem rpm_formula_witness:
  "(26::nat) < 256 \<and> (248::nat) < 256
   \<and> cleanResponse (''010c'' @ [CHR 0x0D] @ ''41 0c 1A F8'' @ [CHR 0x0D, CHR 0x0D] @ ''>'')
       = ''010C'' @ ''410C'' @ hexByte 26 @ hexByte 248 @ ''>''
   \<and> list_all (\<lambda>j. \<not> markerAt (''010C'' @ ''410C'' @ hexByte 26 @ hexByte 248 @ ''>'') j) [0..<4]
   \<and> parseOBDResponse ''0C'' (''010c'' @ [CHR 0x0D] @ ''41 0c 1A F8'' @ [CHR 0x0D, CHR 0x0D] @ ''>'')
       = Some (Num 1726)"
proof -
  let ?r = "''010c'' @ [CHR 0x0D] @ ''41 0c 1A F8'' @ [CHR 0x0D, CHR 0x0D] @ ''>''"
  have c: "cleanResponse ?r = ''010C'' @ ''410C'' @ hexByte 26 @ hexByte 248 @ ''>''"
    by code_simp
  have n: "list_all (\<lambda>j. \<not> markerAt (''010C'' @ ''410C'' @ hexByte 26 @ hexByte 248 @ ''>'') j) [0..<4]"
    by code_simp
  then have n': "\<forall>j<length ''010C''. \<not> markerAt (cleanResponse ?r) j"
    unfolding c list_all_iff by simp
  show ?thesis
    using rpm_formula [of 26 248 ?r "''010C''" "''>''", OF _ _ c n'] c n by simp
qed

subsection \<open>Decoding trouble codes\<close>

lemma length_hexByte: "n < 256 \<Longrightarrow> length (hexByte n) = 2"
  by (simp add: hexByte_digits)

lemma convertHexToDTC_bytes:
  assumes "F < 256" and "S < 256"
  shows "convertHexToDTC (hexByte F @ hexByte S) =
           Some ([''PCBU'' ! (F div 64)] @ showDec ((F mod 64) div 16) @ showDec (F mod 16)
                 @ hexByte S)"
proof -
  have 1: "substr (hexByte F @ hexByte S) 0 2 = hexByte F"
    and 2: "substr (hexByte F @ hexByte S) 2 2 = hexByte S"
    using assms by (simp_all add: substr_def length_hexByte)
  have 3: "fourthFifthCharOf (Some S) = hexByte S"
    by (simp add: fourthFifthCharOf_def hexByte_def)
  have "F div 64 < 4"
    using assms(1) by simp
  then show ?thesis
    using assms
    by (simp add: convertHexToDTC_def 1 2 3 parseInt16_hexByte firstCharOf_def showNumber_def
        Let_def)
qed

lemma dtc_examples:
  "map code (parseDTCCodes ''43 01 06'') = [''P0106'']" and "parseDTCCodes ''43 00 00'' = []"
  by code_simp+

text \<open>
  C6.  The group \<open>0A 06\<close> has the third digit \<open>F mod 16 = 10\<close>.  The template string
  prints it in decimal, as \<open>10\<close>, and the code surfaced has six characters.
\<close>

theorem third_digit_printed_in_decimal:
  "convertHexToDTC ''0A06'' = Some ''P01006''
   \<and> map code (parseDTCCodes ''43 0A 06'') = [''P01006'']"
  by code_simp

lemma pushDTC_append: "pushDTC codes dtcHex = codes @ pushDTC [] dtcHex"
  by (simp add: pushDTC_def split: option.splits)

lemma foldl_pushDTC: "foldl pushDTC codes groups = codes @ foldl pushDTC [] groups"
proof (induction groups arbitrary: codes)
  case Nil
  then show ?case by simp
next
  case (Cons g gs)
  have "foldl pushDTC codes (g # gs) = foldl pushDTC (pushDTC codes g) gs" by simp
  also have "\<dots> = pushDTC codes g @ foldl pushDTC [] gs" by (rule Cons.IH)
  also have "\<dots> = codes @ pushDTC [] g @ foldl pushDTC [] gs"
    using pushDTC_append [of codes g] by simp
  also have "pushDTC [] g @ foldl pushDTC [] gs = foldl pushDTC [] (g # gs)"
    using Cons.IH [of "pushDTC [] g"] by simp
  finally show ?case .
qed

lemma dtcMatchAt_iff:
  "dtcMatchAt s = Some x \<longleftrightarrow> dtcMarkerAt s 0 \<and> x = take 4 (drop 2 s)"
  by (cases s rule: dtcMatchAt.cases) (auto simp: dtcMarkerAt_def)

lemma dtcMatchAt_None_iff: "dtcMatchAt s = None \<longleftrightarrow> \<not> dtcMarkerAt s 0"
  using dtcMatchAt_iff [of s] by (cases "dtcMatchAt s") auto

lemma dtcMarkerAt_Cons_Suc: "dtcMarkerAt (c # cs) (Suc i) = dtcMarkerAt cs i"
  by (simp add: dtcMarkerAt_def add.commute)

lemma dtcMatches_first:
  assumes "dtcMarkerAt s i" and "\<forall>j<i. \<not> dtcMarkerAt s j"
  shows "dtcMatches s = take 4 (drop (i + 2) s) # dtcMatches (drop (i + 6) s)"
  using assms
proof (induction s arbitrary: i)
  case Nil
  then show ?case by (simp add: dtcMarkerAt_def)
next
  case (Cons c cs)
  show ?case
  proof (cases i)
    case 0
    with Cons.prems(1) have "dtcMatchAt (c # cs) = Some (take 4 (drop 2 (c # cs)))"
      by (simp add: dtcMatchAt_iff)
    with 0 show ?thesis by simp
  next
    case (Suc k)
    with Cons.prems(2) have "\<not> dtcMarkerAt (c # cs) 0" by blast
    then have step: "dtcMatches (c # cs) = dtcMatches cs"
      by (simp add: dtcMatchAt_None_iff [symmetric])
    have "dtcMarkerAt cs k"
      using Cons.prems(1) Suc by (simp add: dtcMarkerAt_Cons_Suc)
    moreover have "\<forall>j<k. \<not> dtcMarkerAt cs j"
    proof (intro allI impI)
      fix j assume "j < k"
      then have "Suc j < i" using Suc by simp
      with Cons.prems(2) have "\<not> dtcMarkerAt (c # cs) (Suc j)" by blast
      then show "\<not> dtcMarkerAt cs j" by (simp add: dtcMarkerAt_Cons_Suc)
    qed
    ultimately have "dtcMatches cs = take 4 (drop (k + 2) cs) # dtcMatches (drop (k + 6) cs)"
      by (rule Cons.IH)
    then show ?thesis
      unfolding step Suc by (simp only: drop_Suc_plus)
  qed
qed

lemma dtcMatches_none:
  assumes "\<forall>j. \<not> dtcMarkerAt s j"
  shows "dtcMatches s = []"
  using assms
proof (induction s)
  case Nil
  then show ?case by simp
next
  case (Cons c cs)
  from Cons.prems have "\<not> dtcMarkerAt (c # cs) 0" by blast
  then have step: "dtcMatches (c # cs) = dtcMatches cs"
    by (simp add: dtcMatchAt_None_iff [symmetric])
  have "\<forall>j. \<not> dtcMarkerAt cs j"
  proof
    fix j
    from Cons.prems have "\<not> dtcMarkerAt (c # cs) (Suc j)" by blast
    then show "\<not> dtcMarkerAt cs j" by (simp add: dtcMarkerAt_Cons_Suc)
  qed
  with Cons.IH step show ?case by simp
qed

lemma upperChar_cases:
  "upperChar c = c \<or> upperChar c \<in> set ''ABCDEFGHIJKLMNOPQRSTUVWXYZ''"
proof (cases "map_of (zip ''abcdefghijklmnopqrstuvwxyz'' ''ABCDEFGHIJKLMNOPQRSTUVWXYZ'') c")
  case None
  then show ?thesis by (simp add: upperChar_def)
next
  case (Some u)
  then have "(c, u) \<in> set (zip ''abcdefghijklmnopqrstuvwxyz'' ''ABCDEFGHIJKLMNOPQRSTUVWXYZ'')"
    by (rule map_of_SomeD)
  then have "u \<in> set ''ABCDEFGHIJKLMNOPQRSTUVWXYZ''"
    by (rule set_zip_rightD)
  moreover have "upperChar c = u"
    unfolding upperChar_def Some by simp
  ultimately show ?thesis by simp
qed

lemma clean_upper:
  assumes "\<not> isSpace c"
  shows "\<not> isSpace (upperChar c) \<and> upperChar (upperChar c) = upperChar c"
proof -
  have "list_all (\<lambda>u. \<not> isSpace u \<and> upperChar u = u) ''ABCDEFGHIJKLMNOPQRSTUVWXYZ''"
    by code_simp
  then have "\<not> isSpace u \<and> upperChar u = u" if "u \<in> set ''ABCDEFGHIJKLMNOPQRSTUVWXYZ''" for u
    using that unfolding list_all_iff by blast
  with upperChar_cases [of c] assms show ?thesis by metis
qed

lemma cleanResponse_chars:
  "c \<in> set (cleanResponse response) \<Longrightarrow> \<not> isSpace c \<and> upperChar c = c"
  using clean_upper by (auto simp: cleanResponse_def toUpperCase_def)

lemma cleanResponse_id:
  "\<forall>c\<in>set t. \<not> isSpace c \<and> upperChar c = c \<Longrightarrow> cleanResponse t = t"
  by (induction t) (simp_all add: cleanResponse_def toUpperCase_def)

lemma convertHexToDTC_nonempty: "convertHexToDTC hex = Some dtcCode \<Longrightarrow> dtcCode \<noteq> []"
  by (auto simp: convertHexToDTC_def Let_def firstCharOf_def split: option.splits if_splits)

text \<open>
  C7, as stated, fails.  Of the two groups \<open>01 06\<close> and \<open>01 71\<close> after \<open>43\<close> only the
  first is decoded.
\<close>

theorem second_group_not_decoded_counterexample:
  "map code (parseDTCCodes (''43'' @ concat [''0106'', ''0171''])) = [''P0106'']
   \<and> codesOfGroups [''0106'', ''0171''] = [''P0106'', ''P0171'']"
  by code_simp

text \<open>
  C7, amended.  Take a response whose cleaned text holds \<open>43\<close> and a group of four
  hexadecimal digits, with no earlier place that the codec takes for a marker (blanks in
  the response and an echoed command before \<open>43\<close> do no harm).  The codec surfaces the
  code of that group with its description and severity, unless it is \<open>P0000\<close>, and then
  what it surfaces for the text after the group: a further group is decoded only where
  that text again holds \<open>43\<close> and four hexadecimal digits, and where it holds none the
  first group is all that is decoded.
\<close>

theorem first_group_after_marker_surfaced:
  assumes "cleanResponse response = pre @ ''43'' @ g @ t"
    and "\<forall>j<length pre. \<not> dtcMarkerAt (cleanResponse response) j"
    and "length g = 4" and "\<forall>c\<in>set g. isHex c"
    and "convertHexToDTC g = Some dtcCode"
    and "surfaced = (if dtcCode = ''P0000'' then []
                     else [\<lparr>code = dtcCode, description = getDTCDescription dtcCode,
                             severity = getDTCSeverity dtcCode\<rparr>])"
  shows "parseDTCCodes response = surfaced @ parseDTCCodes t
       \<and> ((\<forall>j. \<not> dtcMarkerAt t j) \<longrightarrow> parseDTCCodes response = surfaced)"
proof -
  let ?s = "cleanResponse response"
  from assms(3) obtain p g1 where g1: "g = p # g1" "length g1 = 3"
    by (cases g) simp_all
  then obtain q g2 where g2: "g1 = q # g2" "length g2 = 2"
    by (cases g1) simp_all
  then obtain r g3 where g3: "g2 = r # g3" "length g3 = 1"
    by (cases g2) simp_all
  then obtain u where g4: "g3 = [u]"
    by (cases g3) simp_all
  have g: "g = [p, q, r, u]"
    by (simp add: g1 g2 g3 g4)
  with assms(4) have hex: "isHex p" "isHex q" "isHex r" "isHex u"
    by simp_all
  have s: "?s = pre @ CHR ''4'' # CHR ''3'' # p # q # r # u # t"
    using assms(1) by (simp add: g)
  have here: "dtcMarkerAt ?s (length pre)"
    unfolding s using hex by (simp add: dtcMarkerAt_def nth_append)
  have "take 4 (drop (length pre + 2) ?s) = g" and "drop (length pre + 6) ?s = t"
    unfolding s by (simp_all add: g)
  with dtcMatches_first [OF here assms(2)]
  have m: "dtcMatches ?s = g # dtcMatches t"
    by simp
  have "set t \<subseteq> set ?s"
    unfolding s by auto
  then have "\<forall>c\<in>set t. \<not> isSpace c \<and> upperChar c = c"
    using cleanResponse_chars by blast
  then have ct: "cleanResponse t = t"
    by (rule cleanResponse_id)
  have one: "pushDTC [] g = surfaced"
    using assms(5) convertHexToDTC_nonempty [OF assms(5)]
    by (simp add: pushDTC_def assms(6))
  have all: "parseDTCCodes response = surfaced @ parseDTCCodes t"
    using foldl_pushDTC [of "pushDTC [] g" "dtcMatches t"]
    by (simp add: parseDTCCodes_def m ct one)
  have "parseDTCCodes t = []" if "\<forall>j. \<not> dtcMarkerAt t j"
    using dtcMatches_none [OF that] by (simp add: parseDTCCodes_def ct)
  with all show ?thesis by simp
qed

theorem first_group_after_marker_surfaced_witness:
  "cleanResponse (''03'' @ [CHR 0x0D] @ ''43 01 06 01 71 43 04 20'' @ [CHR 0x0D, CHR 0x0D] @ ''>'')
     = ''03'' @ ''43'' @ ''0106'' @ ''0171430420>''
   \<and> list_all (\<lambda>j. \<not> dtcMarkerAt (''03'' @ ''43'' @ ''0106'' @ ''0171430420>'') j) [0..<2]
   \<and> length ''0106'' = 4 \<and> list_all isHex ''0106''
   \<and> convertHexToDTC ''0106'' = Some ''P0106''
   \<and> parseDTCCodes (''03'' @ [CHR 0x0D] @ ''43 01 06 01 71 43 04 20'' @ [CHR 0x0D, CHR 0x0D] @ ''>'')
     = [\<lparr>code = ''P0106'', description = getDTCDescription ''P0106'',
          severity = getDTCSeverity ''P0106''\<rparr>] @ parseDTCCodes ''0171430420>''
   \<and> map code (parseDTCCodes ''0171430420>'') = [''P0420'']"
proof -
  let ?r = "''03'' @ [CHR 0x0D] @ ''43 01 06 01 71 43 04 20'' @ [CHR 0x0D, CHR 0x0D] @ ''>''"
  have 1: "cleanResponse ?r = ''03'' @ ''43'' @ ''0106'' @ ''0171430420>''"
    by code_simp
  have 2: "list_all (\<lambda>j. \<not> dtcMarkerAt (''03'' @ ''43'' @ ''0106'' @ ''0171430420>'') j) [0..<2]"
    by code_simp
  then have nomarker: "\<forall>j<length ''03''. \<not> dtcMarkerAt (cleanResponse ?r) j"
    unfolding 1 list_all_iff by simp
  have 3: "length ''0106'' = 4" by simp
  have 4: "list_all isHex ''0106''" by code_simp
  then have hexg: "\<forall>c\<in>set ''0106''. isHex c"
    unfolding list_all_iff .
  have 5: "convertHexToDTC ''0106'' = Some ''P0106''" by code_simp
  have 6: "map code (parseDTCCodes ''0171430420>'') = [''P0420'']" by code_simp
  have "parseDTCCodes ?r
     = [\<lparr>code = ''P0106'', description = getDTCDescription ''P0106'',
          severity = getDTCSeverity ''P0106''\<rparr>] @ parseDTCCodes ''0171430420>''"
    using first_group_after_marker_surfaced [OF 1 nomarker 3 hexg 5 refl] by simp
  with 1 2 3 4 5 6 show ?thesis by blast
qed

end
